theory Spec2Isabelle
  imports Main "HOL-Library.AList"
begin

section \<open>Wire data (package pb, as floodsub.go reads it)\<close>

text \<open>
  A \<^verbatim>\<open>peer.ID\<close> is a Go string, and so are the byte fields of a message once
  \<^verbatim>\<open>msgID\<close> has converted them. The fields carry the names of the getters the
  router calls (\<^verbatim>\<open>GetFrom\<close>, \<^verbatim>\<open>GetSeqno\<close>, \<^verbatim>\<open>GetTopicIDs\<close>, ...).
\<close>

type_synonym peer_ID = string

record Message =
  GetFrom :: string
  GetData :: string
  GetSeqno :: string
  GetTopicIDs :: "string list"

record RPC_SubOpts =
  GetTopicid :: string
  GetSubscribe :: bool

text \<open>\<^verbatim>\<open>type RPC struct { pb.RPC; from peer.ID }\<close>\<close>

record RPC =
  GetSubscriptions :: "RPC_SubOpts list"
  GetPublish :: "Message list"
  rpc_from :: peer_ID

text \<open>
  Modelled from the spec: \<^verbatim>\<open>rpcWithSubs\<close> and \<^verbatim>\<open>rpcWithMessages\<close> are helpers of this
  repository that are not in floodsub.go. The spec has the announcement broadcast "a
  subscribe option for the topic" and the forward "an RPC carrying just this message";
  the sender field is not sent over the wire and stays empty.
\<close>

definition rpcWithSubs :: "RPC_SubOpts list \<Rightarrow> RPC" where
  "rpcWithSubs subopts = \<lparr>GetSubscriptions = subopts, GetPublish = [], rpc_from = []\<rparr>"

definition rpcWithMessages :: "Message list \<Rightarrow> RPC" where
  "rpcWithMessages msgs = \<lparr>GetSubscriptions = [], GetPublish = msgs, rpc_from = []\<rparr>"

section \<open>Go channels\<close>

text \<open>
  A buffered channel as the sender sees it: the frames waiting in the buffer, the
  capacity given to \<^verbatim>\<open>make\<close>, and whether \<^verbatim>\<open>close\<close> has been called. A send
  on a closed channel panics; a send on an open channel whose buffer is full suspends the
  sending goroutine (outcome \<open>Blocked\<close>); closing a closed channel panics.
\<close>

record 'a chan =
  buf :: "'a list"
  cap :: nat
  closed :: bool

datatype fault = Blocked | PanicSendOnClosed | PanicCloseOfClosed | PanicNilDeref

definition make_chan :: "nat \<Rightarrow> 'a chan" where
  "make_chan n = \<lparr>buf = [], cap = n, closed = False\<rparr>"

definition chan_send :: "'a \<Rightarrow> 'a chan \<Rightarrow> fault + 'a chan" where
  "chan_send v c =
     (if closed c then Inl PanicSendOnClosed
      else if length (buf c) < cap c then Inr (c\<lparr>buf := buf c @ [v]\<rparr>)
      else Inl Blocked)"

definition chan_close :: "'a chan \<Rightarrow> fault + 'a chan" where
  "chan_close c = (if closed c then Inl PanicCloseOfClosed else Inr (c\<lparr>closed := True\<rparr>))"

section \<open>Router state\<close>

text \<open>
  A \<^verbatim>\<open>*Subscription\<close> is an index into the list of Subscription objects allocated so
  far; an index past the end is a pointer to no object. The struct literal in
  \<^verbatim>\<open>handleAddSubscription\<close> and the assignment in \<^verbatim>\<open>handleRemoveSubscription\<close> give
  the fields (\<^verbatim>\<open>cancelCh\<close> is the router's own channel and is left out).
\<close>

type_synonym sub_ptr = nat

record Subscription =
  sub_ch :: "Message chan"
  sub_topic :: string
  sub_err :: "string option"

text \<open>
  The fields of \<^verbatim>\<open>PubSub\<close> that the loop owns. A Go map is an association list whose
  order is the order a \<^verbatim>\<open>range\<close> over it happens to take, and a
  \<^verbatim>\<open>map[K]struct{}\<close> is a list of its keys. \<open>seenMessages\<close> is the external time
  cache, read through \<open>seenMessage\<close> and \<open>markSeen\<close> only. \<open>spawned\<close> records
  the goroutines started by \<^verbatim>\<open>go func() { mch <- out }()\<close>: the peer whose queue
  \<^verbatim>\<open>mch\<close> was looked up and the frame to send.
\<close>

record PubSub =
  host_ID :: peer_ID
  myTopics :: "(string \<times> sub_ptr list) list"
  topics :: "(string \<times> peer_ID list) list"
  peers :: "(peer_ID \<times> RPC chan) list"
  seenMessages :: "string set"
  subscriptions :: "Subscription list"
  spawned :: "(peer_ID \<times> RPC) list"

definition NewFloodSub :: "peer_ID \<Rightarrow> PubSub" where
  "NewFloodSub h =
     \<lparr>host_ID = h, myTopics = [], topics = [], peers = [], seenMessages = {},
      subscriptions = [], spawned = []\<rparr>"

text \<open>Reading a key of a map of sets: a missing key reads as the nil map, which has no element.\<close>

definition lookup_set :: "(string \<times> 'a list) list \<Rightarrow> string \<Rightarrow> 'a list" where
  "lookup_set m t = (case map_of m t of None \<Rightarrow> [] | Some xs \<Rightarrow> xs)"

section \<open>Announcements and local delivery\<close>

text \<open>\<^verbatim>\<open>for _, peer := range p.peers { peer <- out }\<close>\<close>

fun send_all :: "RPC \<Rightarrow> (peer_ID \<times> RPC chan) list \<Rightarrow> fault + (peer_ID \<times> RPC chan) list" where
  "send_all out [] = Inr []"
| "send_all out ((pid, ch) # ps) =
     (case chan_send out ch of
        Inl e \<Rightarrow> Inl e
      | Inr ch' \<Rightarrow>
          (case send_all out ps of
             Inl e \<Rightarrow> Inl e
           | Inr ps' \<Rightarrow> Inr ((pid, ch') # ps')))"

definition announce :: "string \<Rightarrow> bool \<Rightarrow> PubSub \<Rightarrow> fault + PubSub" where
  "announce topic sub s =
     (let subopt = \<lparr>GetTopicid = topic, GetSubscribe = sub\<rparr>;
          out = rpcWithSubs [subopt]
      in case send_all out (peers s) of
           Inl e \<Rightarrow> Inl e
         | Inr ps \<Rightarrow> Inr (s\<lparr>peers := ps\<rparr>))"

text \<open>\<^verbatim>\<open>for f := range subs { f.ch <- &Message{msg} }\<close>, on the Subscription objects.\<close>

fun deliver :: "Message \<Rightarrow> sub_ptr list \<Rightarrow> Subscription list \<Rightarrow> fault + Subscription list" where
  "deliver msg [] h = Inr h"
| "deliver msg (f # fs) h =
     (if f < length h then
        (case chan_send msg (sub_ch (h ! f)) of
           Inl e \<Rightarrow> Inl e
         | Inr ch' \<Rightarrow> deliver msg fs (h[f := (h ! f)\<lparr>sub_ch := ch'\<rparr>]))
      else Inl PanicNilDeref)"

fun notify_topics ::
  "Message \<Rightarrow> string list \<Rightarrow> (string \<times> sub_ptr list) list \<Rightarrow> Subscription list
     \<Rightarrow> fault + Subscription list" where
  "notify_topics msg [] mt h = Inr h"
| "notify_topics msg (topic # ts) mt h =
     (case deliver msg (lookup_set mt topic) h of
        Inl e \<Rightarrow> Inl e
      | Inr h' \<Rightarrow> notify_topics msg ts mt h')"

definition notifySubs :: "Message \<Rightarrow> PubSub \<Rightarrow> fault + PubSub" where
  "notifySubs msg s =
     (case notify_topics msg (GetTopicIDs msg) (myTopics s) (subscriptions s) of
        Inl e \<Rightarrow> Inl e
      | Inr h \<Rightarrow> Inr (s\<lparr>subscriptions := h\<rparr>))"

section \<open>The seen-set\<close>

text \<open>
  Modelled from the spec: the time cache is an external collaborator; within the
  retention window \<open>add\<close> records an identity and \<open>has\<close> tells whether it was added.
\<close>

definition seenMessage :: "PubSub \<Rightarrow> string \<Rightarrow> bool" where
  "seenMessage s mid = (mid \<in> seenMessages s)"

definition markSeen :: "string \<Rightarrow> PubSub \<Rightarrow> PubSub" where
  "markSeen mid s = s\<lparr>seenMessages := insert mid (seenMessages s)\<rparr>"

section \<open>Subscriptions\<close>

definition handleRemoveSubscription :: "sub_ptr \<Rightarrow> PubSub \<Rightarrow> fault + PubSub" where
  "handleRemoveSubscription sub s =
     (if sub < length (subscriptions s) then
        (let sb = subscriptions s ! sub in
         case map_of (myTopics s) (sub_topic sb) of
           None \<Rightarrow> Inr s
         | Some subs \<Rightarrow>
             (case chan_close (sub_ch sb) of
                Inl e \<Rightarrow> Inl e
              | Inr ch' \<Rightarrow>
                  (let sb' = sb\<lparr>sub_ch := ch',
                        sub_err := Some ''subscription cancelled by calling sub.Cancel()''\<rparr>;
                       subs' = removeAll sub subs;
                       s' = s\<lparr>subscriptions := (subscriptions s)[sub := sb'],
                              myTopics := AList.update (sub_topic sb) subs' (myTopics s)\<rparr>
                   in if length subs' = 0 then announce (sub_topic sb) False s' else Inr s')))
      else Inl PanicNilDeref)"

definition handleAddSubscription :: "string \<Rightarrow> PubSub \<Rightarrow> fault + (sub_ptr \<times> PubSub)" where
  "handleAddSubscription topic s =
     (let subs = map_of (myTopics s) topic in
      case (if length (lookup_set (myTopics s) topic) = 0 then announce topic True s else Inr s) of
        Inl e \<Rightarrow> Inl e
      | Inr s1 \<Rightarrow>
          (let s2 = (if subs = None
                     then s1\<lparr>myTopics := AList.update topic [] (myTopics s1)\<rparr> else s1);
               sub = length (subscriptions s2);
               sb = \<lparr>sub_ch = make_chan 32, sub_topic = topic, sub_err = None\<rparr>
           in Inr (sub,
                s2\<lparr>subscriptions := subscriptions s2 @ [sb],
                   myTopics := AList.update topic
                     (List.insert sub (lookup_set (myTopics s2) topic)) (myTopics s2)\<rparr>)))"

primrec subscribedToMsg_loop :: "(string \<times> sub_ptr list) list \<Rightarrow> string list \<Rightarrow> bool" where
  "subscribedToMsg_loop mt [] = False"
| "subscribedToMsg_loop mt (t # ts) =
     (if map_of mt t = None then subscribedToMsg_loop mt ts else True)"

definition subscribedToMsg :: "PubSub \<Rightarrow> Message \<Rightarrow> bool" where
  "subscribedToMsg s msg = subscribedToMsg_loop (myTopics s) (GetTopicIDs msg)"

section \<open>Publishing\<close>

definition msgID :: "Message \<Rightarrow> string" where
  "msgID pmsg = GetFrom pmsg @ GetSeqno pmsg"

text \<open>The first loop of \<^verbatim>\<open>publishMessage\<close>: the set \<^verbatim>\<open>tosend\<close>.\<close>

fun collect_tosend ::
  "string list \<Rightarrow> (string \<times> peer_ID list) list \<Rightarrow> peer_ID list \<Rightarrow> peer_ID list" where
  "collect_tosend [] tps tosend = tosend"
| "collect_tosend (topic # ts) tps tosend =
     (case map_of tps topic of
        None \<Rightarrow> collect_tosend ts tps tosend
      | Some tmap \<Rightarrow> collect_tosend ts tps (fold List.insert tmap tosend))"

text \<open>The second loop: one detached send per remaining peer that has a queue.\<close>

fun spawn_sends ::
  "peer_ID \<Rightarrow> Message \<Rightarrow> RPC \<Rightarrow> (peer_ID \<times> RPC chan) list \<Rightarrow> peer_ID list
     \<Rightarrow> (peer_ID \<times> RPC) list" where
  "spawn_sends from_peer msg out ps [] = []"
| "spawn_sends from_peer msg out ps (pid # rest) =
     (if pid = from_peer \<or> pid = GetFrom msg then spawn_sends from_peer msg out ps rest
      else (case map_of ps pid of
              None \<Rightarrow> spawn_sends from_peer msg out ps rest
            | Some mch \<Rightarrow> (pid, out) # spawn_sends from_peer msg out ps rest))"

text \<open>The error \<^verbatim>\<open>publishMessage\<close> returns is always nil (\<open>None\<close>).\<close>

definition publishMessage :: "peer_ID \<Rightarrow> Message \<Rightarrow> PubSub \<Rightarrow> string option \<times> PubSub" where
  "publishMessage from_peer msg s =
     (let tosend = collect_tosend (GetTopicIDs msg) (topics s) [];
          out = rpcWithMessages [msg]
      in (None, s\<lparr>spawned := spawned s @ spawn_sends from_peer msg out (peers s) tosend\<rparr>))"

definition maybePublishMessage :: "peer_ID \<Rightarrow> Message \<Rightarrow> PubSub \<Rightarrow> fault + PubSub" where
  "maybePublishMessage from_peer pmsg s =
     (let mid = msgID pmsg in
      if seenMessage s mid then Inr s
      else (case notifySubs pmsg (markSeen mid s) of
              Inl e \<Rightarrow> Inl e
            | Inr s' \<Rightarrow> Inr (snd (publishMessage from_peer pmsg s'))))"

section \<open>Incoming RPCs\<close>

fun handle_subopts ::
  "peer_ID \<Rightarrow> RPC_SubOpts list \<Rightarrow> (string \<times> peer_ID list) list \<Rightarrow> (string \<times> peer_ID list) list" where
  "handle_subopts from_peer [] tps = tps"
| "handle_subopts from_peer (subopt # rest) tps =
     (let t = GetTopicid subopt in
      if GetSubscribe subopt then
        handle_subopts from_peer rest
          (AList.update t (List.insert from_peer (lookup_set tps t)) tps)
      else
        (case map_of tps t of
           None \<Rightarrow> handle_subopts from_peer rest tps
         | Some tmap \<Rightarrow>
             handle_subopts from_peer rest (AList.update t (removeAll from_peer tmap) tps)))"

fun handle_publish :: "peer_ID \<Rightarrow> Message list \<Rightarrow> PubSub \<Rightarrow> fault + PubSub" where
  "handle_publish from_peer [] s = Inr s"
| "handle_publish from_peer (pmsg # rest) s =
     (if subscribedToMsg s pmsg then
        (case maybePublishMessage from_peer pmsg s of
           Inl e \<Rightarrow> Inl e
         | Inr s' \<Rightarrow> handle_publish from_peer rest s')
      else handle_publish from_peer rest s)"

definition handleIncomingRPC :: "RPC \<Rightarrow> PubSub \<Rightarrow> fault + PubSub" where
  "handleIncomingRPC rpc s =
     handle_publish (rpc_from rpc) (GetPublish rpc)
       (s\<lparr>topics := handle_subopts (rpc_from rpc) (GetSubscriptions rpc) (topics s)\<rparr>)"

section \<open>The loop\<close>

text \<open>
  Modelled from the spec: \<^verbatim>\<open>getHelloPacket\<close> is not in floodsub.go. The spec has the
  hello RPC carry a subscribe=true option for every topic currently in \<open>my_topics\<close>.
\<close>

definition getHelloPacket :: "PubSub \<Rightarrow> RPC" where
  "getHelloPacket s =
     rpcWithSubs (map (\<lambda>t. \<lparr>GetTopicid = t, GetSubscribe = True\<rparr>) (map fst (myTopics s)))"

text \<open>The \<^verbatim>\<open>getTopics\<close> and \<^verbatim>\<open>getPeers\<close> cases: what is sent on the reply channel.\<close>

definition GetTopics :: "PubSub \<Rightarrow> string list" where
  "GetTopics s = map fst (filter (\<lambda>(t, subs). 0 < length subs) (myTopics s))"

definition ListPeers :: "PubSub \<Rightarrow> string \<Rightarrow> peer_ID list" where
  "ListPeers s topic =
     (case map_of (topics s) topic of
        None \<Rightarrow> (if topic \<noteq> [] then [] else map fst (peers s))
      | Some tmap \<Rightarrow>
          filter (\<lambda>p. if topic \<noteq> [] then p \<in> set tmap else True) (map fst (peers s)))"

text \<open>\<^verbatim>\<open>binary.BigEndian.PutUint64(seqno, uint64(time.Now().UnixNano()))\<close>\<close>

definition PutUint64 :: "int \<Rightarrow> string" where
  "PutUint64 v = map (\<lambda>k. char_of ((v mod 2 ^ 64) div 2 ^ (8 * k))) [7, 6, 5, 4, 3, 2, 1, 0::nat]"

definition Publish_Message :: "peer_ID \<Rightarrow> string \<Rightarrow> string \<Rightarrow> int \<Rightarrow> Message" where
  "Publish_Message h topic data now =
     \<lparr>GetFrom = h, GetData = data, GetSeqno = PutUint64 now, GetTopicIDs = [topic]\<rparr>"

text \<open>
  One iteration of \<^verbatim>\<open>processLoop\<close>: the event selected, the reply sent on the
  request's channel, and the state after it. \<open>Publish\<close> carries the arguments of the
  call and the clock reading it took. The goroutine that the peer-up case starts with
  \<^verbatim>\<open>go p.handleSendingMessages(ctx, s, messages)\<close> runs beside the loop: its steps
  are those of \<open>worker_takes\<close> below, on the queue registered for the peer.
\<close>

datatype event =
  NewPeers peer_ID
  | PeerDead peer_ID
  | GetTopicsReq
  | CancelCh sub_ptr
  | AddSub string
  | GetPeersReq string
  | Incoming RPC
  | Publish string string int

datatype reply = NoReply | TopicsResp "string list" | PeersResp "peer_ID list" | SubResp sub_ptr

definition close_if_present :: "RPC chan option \<Rightarrow> fault + unit" where
  "close_if_present c =
     (case c of
        None \<Rightarrow> Inr ()
      | Some ch \<Rightarrow> (case chan_close ch of Inl e \<Rightarrow> Inl e | Inr ch' \<Rightarrow> Inr ()))"

fun processLoop :: "event \<Rightarrow> PubSub \<Rightarrow> fault + (reply \<times> PubSub)" where
  "processLoop (NewPeers pid) s =
     (case close_if_present (map_of (peers s) pid) of
        Inl e \<Rightarrow> Inl e
      | Inr u \<Rightarrow>
          (case chan_send (getHelloPacket s) (make_chan 32) of
             Inl e \<Rightarrow> Inl e
           | Inr messages \<Rightarrow> Inr (NoReply, s\<lparr>peers := AList.update pid messages (peers s)\<rparr>)))"
| "processLoop (PeerDead pid) s =
     (case close_if_present (map_of (peers s) pid) of
        Inl e \<Rightarrow> Inl e
      | Inr u \<Rightarrow>
          Inr (NoReply,
            s\<lparr>peers := AList.delete pid (peers s),
              topics := map (\<lambda>(t, tmap). (t, removeAll pid tmap)) (topics s)\<rparr>))"
| "processLoop GetTopicsReq s = Inr (TopicsResp (GetTopics s), s)"
| "processLoop (CancelCh sub) s =
     (case handleRemoveSubscription sub s of
        Inl e \<Rightarrow> Inl e
      | Inr s' \<Rightarrow> Inr (NoReply, s'))"
| "processLoop (AddSub topic) s =
     (case handleAddSubscription topic s of
        Inl e \<Rightarrow> Inl e
      | Inr (sub, s') \<Rightarrow> Inr (SubResp sub, s'))"
| "processLoop (GetPeersReq topic) s = Inr (PeersResp (ListPeers s topic), s)"
| "processLoop (Incoming rpc) s =
     (case handleIncomingRPC rpc s of
        Inl e \<Rightarrow> Inl e
      | Inr s' \<Rightarrow> Inr (NoReply, s'))"
| "processLoop (Publish topic data now) s =
     (case maybePublishMessage (host_ID s) (Publish_Message (host_ID s) topic data now) s of
        Inl e \<Rightarrow> Inl e
      | Inr s' \<Rightarrow> Inr (NoReply, s'))"

text \<open>A run of the loop over a list of events, stopping at the first fault.\<close>

fun run :: "event list \<Rightarrow> PubSub \<Rightarrow> fault + PubSub" where
  "run [] s = Inr s"
| "run (e # es) s =
     (case processLoop e s of
        Inl f \<Rightarrow> Inl f
      | Inr (r, s') \<Rightarrow> run es s')"

section \<open>Subscribe\<close>

text \<open>
  Modelled from the spec: the topic descriptor and its getters belong to package pb,
  which is not in floodsub.go. A descriptor has a name, an authentication mode and an
  encryption mode; a part that is not set reads as NONE.
\<close>

datatype AuthMode = AuthOpts_NONE | AuthOpts_KEY | AuthOpts_WOT

datatype EncMode = EncOpts_NONE | EncOpts_SHAREDKEY | EncOpts_WOT





section \<open>The workers around the loop\<close>

text \<open>
  Modelled from the spec: \<^verbatim>\<open>handleSendingMessages\<close>, the send worker that
  \<^verbatim>\<open>processLoop\<close> starts for a new peer, and the reading side of a Subscription are
  not in floodsub.go. The spec has the send worker read the frames of its queue in order
  and write them to the stream, and the application consume the inbox of its handle. One
  step of either takes the oldest frame off the queue; with nothing waiting, or with no
  such queue, the step changes nothing.
\<close>

definition chan_recv :: "'a chan \<Rightarrow> 'a chan" where
  "chan_recv c = c\<lparr>buf := tl (buf c)\<rparr>"

definition worker_takes :: "peer_ID \<Rightarrow> PubSub \<Rightarrow> PubSub" where
  "worker_takes pid s =
     (case map_of (peers s) pid of
        None \<Rightarrow> s
      | Some ch \<Rightarrow> s\<lparr>peers := AList.update pid (chan_recv ch) (peers s)\<rparr>)"

definition reader_takes :: "sub_ptr \<Rightarrow> PubSub \<Rightarrow> PubSub" where
  "reader_takes sub s =
     (if sub < length (subscriptions s) then
        s\<lparr>subscriptions := (subscriptions s)
             [sub := (subscriptions s ! sub)\<lparr>sub_ch := chan_recv (sub_ch (subscriptions s ! sub))\<rparr>]\<rparr>
      else s)"

text \<open>
  A step of the system: an iteration of the loop, a send worker taking a frame, or a
  reader taking a message. \<open>exec\<close> runs a list of steps and stops at the first fault
  of the loop.
\<close>

datatype step = Loop event | SendWorker peer_ID | Reader sub_ptr

fun exec :: "step list \<Rightarrow> PubSub \<Rightarrow> fault + PubSub" where
  "exec [] s = Inr s"
| "exec (Loop e # st) s =
     (case processLoop e s of
        Inl f \<Rightarrow> Inl f
      | Inr (r, s') \<Rightarrow> exec st s')"
| "exec (SendWorker pid # st) s = exec st (worker_takes pid s)"
| "exec (Reader sub # st) s = exec st (reader_takes sub s)"

section \<open>Predicates of the statements\<close>

text \<open>
  Every queue of the list is open and has a free slot, so that a send to each of them
  goes through at once.
\<close>

primrec queues_ready :: "(peer_ID \<times> 'a chan) list \<Rightarrow> bool" where
  "queues_ready [] = True"
| "queues_ready (p # ps) =
     (\<not> closed (snd p) \<and> length (buf (snd p)) < cap (snd p) \<and> queues_ready ps)"





text \<open>
  Some option of the list has subscribe=true. An incoming RPC that carries such an
  option is taken by the loop while its sender is a key of \<open>peers\<close>;
  \<open>senders_connected\<close> says so of every such RPC along a list of steps.
\<close>

primrec subscribes :: "RPC_SubOpts list \<Rightarrow> bool" where
  "subscribes [] = False"
| "subscribes (subopt # rest) = (if GetSubscribe subopt then True else subscribes rest)"

fun sender_connected :: "event \<Rightarrow> PubSub \<Rightarrow> bool" where
  "sender_connected (Incoming rpc) s =
     (if subscribes (GetSubscriptions rpc) then rpc_from rpc \<in> fst ` set (peers s) else True)"
| "sender_connected e s = True"

fun senders_connected :: "step list \<Rightarrow> PubSub \<Rightarrow> bool" where
  "senders_connected [] s = True"
| "senders_connected (Loop e # st) s =
     (sender_connected e s \<and>
      (case processLoop e s of
         Inl f \<Rightarrow> True
       | Inr (r, s') \<Rightarrow> senders_connected st s'))"
| "senders_connected (SendWorker pid # st) s = senders_connected st (worker_takes pid s)"
| "senders_connected (Reader sub # st) s = senders_connected st (reader_takes sub s)"

text \<open>Every peer id in a set of \<open>topics\<close> is a key of \<open>peers\<close>.\<close>

definition topics_in_peers :: "PubSub \<Rightarrow> bool" where
  "topics_in_peers s = (\<forall>t. set (lookup_set (topics s) t) \<subseteq> fst ` set (peers s))"

section \<open>Frame lemmas\<close>

lemma notifySubs_seen: "notifySubs msg s = Inr s' \<Longrightarrow> seenMessages s' = seenMessages s"
  by (auto simp: notifySubs_def split: sum.splits)

lemma publishMessage_seen: "seenMessages (snd (publishMessage p msg s)) = seenMessages s"
  by (simp add: publishMessage_def Let_def)

lemma maybePublishMessage_marks:
  "maybePublishMessage p msg s = Inr s' \<Longrightarrow> msgID msg \<in> seenMessages s'"
  by (auto simp: maybePublishMessage_def Let_def seenMessage_def markSeen_def publishMessage_seen
      dest!: notifySubs_seen split: if_splits sum.splits)

section \<open>Message identity\<close>

text \<open>
  C10. The identity of a message is the plain concatenation of its two fields, so it is
  not injective: the messages with from = "ab", seqno = "c" and from = "a", seqno = "bc"
  differ in both fields and have the same identity "abc". Whatever their payloads, topics
  and senders, once publish-maybe has accepted the first, it returns on the second with
  the state untouched: the second is neither delivered nor forwarded.
\<close>

theorem msgID_not_injective:
  "GetFrom \<lparr>GetFrom = ''ab'', GetData = d1, GetSeqno = ''c'', GetTopicIDs = ts1\<rparr>
     \<noteq> GetFrom \<lparr>GetFrom = ''a'', GetData = d2, GetSeqno = ''bc'', GetTopicIDs = ts2\<rparr> \<and>
   GetSeqno \<lparr>GetFrom = ''ab'', GetData = d1, GetSeqno = ''c'', GetTopicIDs = ts1\<rparr>
     \<noteq> GetSeqno \<lparr>GetFrom = ''a'', GetData = d2, GetSeqno = ''bc'', GetTopicIDs = ts2\<rparr> \<and>
   msgID \<lparr>GetFrom = ''ab'', GetData = d1, GetSeqno = ''c'', GetTopicIDs = ts1\<rparr>
     = msgID \<lparr>GetFrom = ''a'', GetData = d2, GetSeqno = ''bc'', GetTopicIDs = ts2\<rparr> \<and>
   (maybePublishMessage p1
        \<lparr>GetFrom = ''ab'', GetData = d1, GetSeqno = ''c'', GetTopicIDs = ts1\<rparr> s = Inr s1 \<longrightarrow>
    maybePublishMessage p2
        \<lparr>GetFrom = ''a'', GetData = d2, GetSeqno = ''bc'', GetTopicIDs = ts2\<rparr> s1 = Inr s1)"
proof -
  let ?m1 = "\<lparr>GetFrom = ''ab'', GetData = d1, GetSeqno = ''c'', GetTopicIDs = ts1\<rparr>"
  let ?m2 = "\<lparr>GetFrom = ''a'', GetData = d2, GetSeqno = ''bc'', GetTopicIDs = ts2\<rparr>"
  have ids: "msgID ?m1 = msgID ?m2" by (simp add: msgID_def)
  have "maybePublishMessage p2 ?m2 s1 = Inr s1" if "maybePublishMessage p1 ?m1 s = Inr s1"
  proof -
    from that have "msgID ?m1 \<in> seenMessages s1" by (rule maybePublishMessage_marks)
    with ids have "seenMessage s1 (msgID ?m2)" by (simp add: seenMessage_def)
    then show ?thesis by (simp add: maybePublishMessage_def)
  qed
  with ids show ?thesis by simp
qed

text \<open>
  The host has one subscriber of "t" and a peer Q subscribed to "t". The first message,
  from P, reaches the inbox and is forwarded to Q; the second, from R, changes nothing.
\<close>

theorem msgID_not_injective_witness:
  "maybePublishMessage ''P''
     \<lparr>GetFrom = ''ab'', GetData = ''one'', GetSeqno = ''c'', GetTopicIDs = [''t'']\<rparr>
     \<lparr>host_ID = ''H'', myTopics = [(''t'', [0])], topics = [(''t'', [''Q''])],
      peers = [(''Q'', \<lparr>buf = [], cap = 32, closed = False\<rparr>)], seenMessages = {},
      subscriptions = [\<lparr>sub_ch = \<lparr>buf = [], cap = 32, closed = False\<rparr>, sub_topic = ''t'',
                        sub_err = None\<rparr>],
      spawned = []\<rparr>
   = Inr \<lparr>host_ID = ''H'', myTopics = [(''t'', [0])], topics = [(''t'', [''Q''])],
      peers = [(''Q'', \<lparr>buf = [], cap = 32, closed = False\<rparr>)], seenMessages = {''abc''},
      subscriptions =
        [\<lparr>sub_ch = \<lparr>buf = [\<lparr>GetFrom = ''ab'', GetData = ''one'', GetSeqno = ''c'',
                                 GetTopicIDs = [''t'']\<rparr>], cap = 32, closed = False\<rparr>,
          sub_topic = ''t'', sub_err = None\<rparr>],
      spawned = [(''Q'', rpcWithMessages [\<lparr>GetFrom = ''ab'', GetData = ''one'', GetSeqno = ''c'',
                                           GetTopicIDs = [''t'']\<rparr>])]\<rparr> \<and>
   maybePublishMessage ''R''
     \<lparr>GetFrom = ''a'', GetData = ''two'', GetSeqno = ''bc'', GetTopicIDs = [''t'']\<rparr>
     \<lparr>host_ID = ''H'', myTopics = [(''t'', [0])], topics = [(''t'', [''Q''])],
      peers = [(''Q'', \<lparr>buf = [], cap = 32, closed = False\<rparr>)], seenMessages = {''abc''},
      subscriptions =
        [\<lparr>sub_ch = \<lparr>buf = [\<lparr>GetFrom = ''ab'', GetData = ''one'', GetSeqno = ''c'',
                                 GetTopicIDs = [''t'']\<rparr>], cap = 32, closed = False\<rparr>,
          sub_topic = ''t'', sub_err = None\<rparr>],
      spawned = [(''Q'', rpcWithMessages [\<lparr>GetFrom = ''ab'', GetData = ''one'', GetSeqno = ''c'',
                                           GetTopicIDs = [''t'']\<rparr>])]\<rparr>
   = Inr \<lparr>host_ID = ''H'', myTopics = [(''t'', [0])], topics = [(''t'', [''Q''])],
      peers = [(''Q'', \<lparr>buf = [], cap = 32, closed = False\<rparr>)], seenMessages = {''abc''},
      subscriptions =
        [\<lparr>sub_ch = \<lparr>buf = [\<lparr>GetFrom = ''ab'', GetData = ''one'', GetSeqno = ''c'',
                                 GetTopicIDs = [''t'']\<rparr>], cap = 32, closed = False\<rparr>,
          sub_topic = ''t'', sub_err = None\<rparr>],
      spawned = [(''Q'', rpcWithMessages [\<lparr>GetFrom = ''ab'', GetData = ''one'', GetSeqno = ''c'',
                                           GetTopicIDs = [''t'']\<rparr>])]\<rparr>"
  (is "?first \<and> ?second")
proof -
  have first: ?first by code_simp
  from msgID_not_injective have ?second using first by blast
  with first show ?thesis by (rule conjI)
qed

section \<open>Cancellation\<close>

text \<open>
  C6. Cancelling a handle twice. After Subscribe("t") and one cancel, the topic's entry
  of \<open>myTopics\<close> is still there, with no handle in it, and the handle's inbox is closed.
  The second cancel finds the entry, so it does not return early: it closes the inbox
  again, which is a panic (close of a closed channel). The same happens when the topic
  still has another subscriber.
\<close>

theorem second_cancel_panics:
  "run [AddSub ''t'', CancelCh 0] (NewFloodSub ''H'') =
     Inr \<lparr>host_ID = ''H'', myTopics = [(''t'', [])], topics = [], peers = [], seenMessages = {},
          subscriptions = [\<lparr>sub_ch = \<lparr>buf = [], cap = 32, closed = True\<rparr>, sub_topic = ''t'',
             sub_err = Some ''subscription cancelled by calling sub.Cancel()''\<rparr>],
          spawned = []\<rparr> \<and>
   run [AddSub ''t'', CancelCh 0, CancelCh 0] (NewFloodSub ''H'') = Inl PanicCloseOfClosed \<and>
   run [AddSub ''t'', AddSub ''t'', CancelCh 0, CancelCh 0] (NewFloodSub ''H'')
     = Inl PanicCloseOfClosed"
  by code_simp

section \<open>Messages on topics without a subscriber\<close>

text \<open>
  C4. A message on a topic whose last handle has been cancelled. P and Q are connected, Q
  has announced "t", the host subscribes to "t" and cancels. \<open>GetTopics\<close> then lists no
  topic, yet the entry of "t" is still a key of \<open>myTopics\<close>, so \<open>subscribedToMsg\<close>
  accepts a message on "t" from P: its identity enters the seen-set and it is forwarded
  to Q.
\<close>

theorem cancelled_topic_not_dropped:
  "map_sum id GetTopics
     (run [NewPeers ''P'', NewPeers ''Q'',
           Incoming \<lparr>GetSubscriptions = [\<lparr>GetTopicid = ''t'', GetSubscribe = True\<rparr>],
                     GetPublish = [], rpc_from = ''Q''\<rparr>,
           AddSub ''t'', CancelCh 0] (NewFloodSub ''H'')) = Inr [] \<and>
   map_sum id (\<lambda>s. (seenMessages s, spawned s))
     (run [NewPeers ''P'', NewPeers ''Q'',
           Incoming \<lparr>GetSubscriptions = [\<lparr>GetTopicid = ''t'', GetSubscribe = True\<rparr>],
                     GetPublish = [], rpc_from = ''Q''\<rparr>,
           AddSub ''t'', CancelCh 0,
           Incoming \<lparr>GetSubscriptions = [],
                     GetPublish = [\<lparr>GetFrom = ''A'', GetData = ''d'', GetSeqno = ''1'',
                                    GetTopicIDs = [''t'']\<rparr>],
                     rpc_from = ''P''\<rparr>] (NewFloodSub ''H''))
     = Inr ({''A1''},
            [(''Q'', rpcWithMessages [\<lparr>GetFrom = ''A'', GetData = ''d'', GetSeqno = ''1'',
                                       GetTopicIDs = [''t'']\<rparr>])])"
  by code_simp

section \<open>Sends from the loop\<close>

text \<open>
  C7. The sends of \<open>announce\<close> and \<open>notifySubs\<close> are plain channel sends made by the
  loop itself. With peer P connected and its send worker taking nothing off the queue,
  the hello frame and 31 announcements fill the 32 slots, and the next announcement
  suspends the loop. With one subscriber of "t" that reads nothing, 32 messages fill its
  inbox and the delivery of the next one suspends the loop. When P's worker has taken
  the hello frame and then takes nothing more, 32 announcements fill the queue and the
  33rd suspends the loop. Only \<open>publishMessage\<close> hands its sends to goroutines of
  their own.
\<close>

theorem loop_blocks_on_full_queue:
  "run (NewPeers ''P'' # concat (map (\<lambda>i. [AddSub ''t'', CancelCh i]) [0..<16]))
     (NewFloodSub ''H'') = Inl Blocked \<and>
   run (AddSub ''t'' #
        map (\<lambda>i. Incoming \<lparr>GetSubscriptions = [],
                    GetPublish = [\<lparr>GetFrom = ''A'', GetData = ''d'',
                                   GetSeqno = replicate i CHR ''x'', GetTopicIDs = [''t'']\<rparr>],
                    rpc_from = ''P''\<rparr>) [0..<33])
     (NewFloodSub ''H'') = Inl Blocked \<and>
   map_sum id (\<lambda>s. map (\<lambda>(pid, ch). (pid, length (buf ch))) (peers s))
     (exec ([Loop (NewPeers ''P''), SendWorker ''P''] @
            map Loop (concat (map (\<lambda>i. [AddSub ''t'', CancelCh i]) [0..<16])))
        (NewFloodSub ''H'')) = Inr [(''P'', 32)] \<and>
   exec ([Loop (NewPeers ''P''), SendWorker ''P''] @
         map Loop (concat (map (\<lambda>i. [AddSub ''t'', CancelCh i]) [0..<16])) @
         [Loop (AddSub ''t'')])
     (NewFloodSub ''H'') = Inl Blocked"
  by code_simp

section \<open>Listing peers\<close>

text \<open>
  C8. \<open>ListPeers\<close> with the empty topic replies with the keys of \<open>peers\<close>. With
  another topic it replies with those keys of \<open>peers\<close> that are in the topic's set of
  \<open>topics\<close>, which is their intersection, and with no peer when \<open>topics\<close> has no
  entry for the topic. A peer is listed once.
\<close>

theorem ListPeers_exact:
  "ListPeers s [] = map fst (peers s) \<and>
   (topic \<noteq> [] \<longrightarrow>
      ListPeers s topic = filter (\<lambda>p. p \<in> set (lookup_set (topics s) topic)) (map fst (peers s)) \<and>
      set (ListPeers s topic) = fst ` set (peers s) \<inter> set (lookup_set (topics s) topic)) \<and>
   (topic \<noteq> [] \<and> map_of (topics s) topic = None \<longrightarrow> ListPeers s topic = []) \<and>
   (distinct (map fst (peers s)) \<longrightarrow> distinct (ListPeers s topic))"
  by (auto simp: ListPeers_def lookup_set_def split: option.splits)

text \<open>
  P and Q are connected; Q and a peer Z that is not connected are in the set of "t".
\<close>

theorem ListPeers_exact_witness:
  "ListPeers \<lparr>host_ID = ''H'', myTopics = [], topics = [(''t'', [''Q'', ''Z''])],
      peers = [(''P'', make_chan 32), (''Q'', make_chan 32)], seenMessages = {},
      subscriptions = [], spawned = []\<rparr> [] = [''P'', ''Q''] \<and>
   ListPeers \<lparr>host_ID = ''H'', myTopics = [], topics = [(''t'', [''Q'', ''Z''])],
      peers = [(''P'', make_chan 32), (''Q'', make_chan 32)], seenMessages = {},
      subscriptions = [], spawned = []\<rparr> ''t'' = [''Q''] \<and>
   ListPeers \<lparr>host_ID = ''H'', myTopics = [], topics = [(''t'', [''Q'', ''Z''])],
      peers = [(''P'', make_chan 32), (''Q'', make_chan 32)], seenMessages = {},
      subscriptions = [], spawned = []\<rparr> ''u'' = []"
  using
    ListPeers_exact [of "\<lparr>host_ID = ''H'', myTopics = [], topics = [(''t'', [''Q'', ''Z''])],
      peers = [(''P'', make_chan 32), (''Q'', make_chan 32)], seenMessages = {},
      subscriptions = [], spawned = []\<rparr>" "''t''"]
    ListPeers_exact [of "\<lparr>host_ID = ''H'', myTopics = [], topics = [(''t'', [''Q'', ''Z''])],
      peers = [(''P'', make_chan 32), (''Q'', make_chan 32)], seenMessages = {},
      subscriptions = [], spawned = []\<rparr>" "''u''"]
  by (simp add: lookup_set_def)

section \<open>The checks of Subscribe\<close>



lemma send_all_needs_ready: "send_all out ps = Inr ps' \<Longrightarrow> queues_ready ps"
  by (induction ps arbitrary: ps') (auto simp: chan_send_def split: sum.splits if_splits)

lemma announce_needs_ready: "announce topic sub s = Inr s' \<Longrightarrow> queues_ready (peers s)"
  by (auto simp: announce_def Let_def split: sum.splits dest: send_all_needs_ready)







section \<open>Announcing the first and the last subscription\<close>







section \<open>Forwarding\<close>

lemma fold_insert_set: "set (fold List.insert xs acc) = set xs \<union> set acc"
  by (induction xs arbitrary: acc) auto

lemma fold_insert_distinct: "distinct acc \<Longrightarrow> distinct (fold List.insert xs acc)"
  by (induction xs arbitrary: acc) auto

lemma collect_tosend_set:
  "set (collect_tosend ts tps acc) = set acc \<union> (\<Union>t\<in>set ts. set (lookup_set tps t))"
  by (induction ts arbitrary: acc)
     (auto simp: lookup_set_def fold_insert_set split: option.splits)

lemma collect_tosend_distinct: "distinct acc \<Longrightarrow> distinct (collect_tosend ts tps acc)"
  by (induction ts arbitrary: acc) (auto simp: fold_insert_distinct split: option.splits)

lemma spawn_sends_filter:
  "spawn_sends f msg out ps tosend =
     map (\<lambda>pid. (pid, out))
       (filter (\<lambda>pid. pid \<noteq> f \<and> pid \<noteq> GetFrom msg \<and> map_of ps pid \<noteq> None) tosend)"
  by (induction tosend) (auto split: option.splits)

lemma count_list_tagged:
  "distinct xs \<Longrightarrow>
     count_list (map (\<lambda>pid. (pid, out)) xs) (p, r) = (if r = out \<and> p \<in> set xs then 1 else 0)"
  by (induction xs) auto

text \<open>
  C2. \<open>publishMessage\<close> returns no error and changes the state only by the sends it
  starts. Among them, the number of sends of a frame \<open>rpc\<close> to the queue of a peer
  \<open>pid\<close> is one when \<open>rpc\<close> is the frame carrying just the message and \<open>pid\<close> is
  neither the immediate sender nor the originator, is a key of \<open>peers\<close> and is in the
  set of at least one topic of the message; it is zero for every other peer and frame.
\<close>

theorem publishMessage_forwards:
  "\<exists>new. publishMessage from_peer msg s = (None, s\<lparr>spawned := spawned s @ new\<rparr>) \<and>
     (\<forall>pid rpc. count_list new (pid, rpc) =
        (if rpc = rpcWithMessages [msg] \<and> pid \<noteq> from_peer \<and> pid \<noteq> GetFrom msg \<and>
            pid \<in> fst ` set (peers s) \<and>
            (\<exists>t\<in>set (GetTopicIDs msg). pid \<in> set (lookup_set (topics s) t))
         then 1 else 0))"
proof -
  let ?tosend = "collect_tosend (GetTopicIDs msg) (topics s) []"
  let ?keep = "filter (\<lambda>pid. pid \<noteq> from_peer \<and> pid \<noteq> GetFrom msg \<and>
                           map_of (peers s) pid \<noteq> None) ?tosend"
  let ?new = "map (\<lambda>pid. (pid, rpcWithMessages [msg])) ?keep"
  have d: "distinct ?keep" by (simp add: collect_tosend_distinct)
  have "publishMessage from_peer msg s = (None, s\<lparr>spawned := spawned s @ ?new\<rparr>)"
    by (simp add: publishMessage_def Let_def spawn_sends_filter)
  moreover have "count_list ?new (pid, rpc) =
        (if rpc = rpcWithMessages [msg] \<and> pid \<noteq> from_peer \<and> pid \<noteq> GetFrom msg \<and>
            pid \<in> fst ` set (peers s) \<and>
            (\<exists>t\<in>set (GetTopicIDs msg). pid \<in> set (lookup_set (topics s) t))
         then 1 else 0)" for pid rpc
    unfolding count_list_tagged[OF d] by (auto simp: collect_tosend_set map_of_eq_None_iff)
  ultimately show ?thesis by blast
qed

section \<open>Publish-maybe\<close>
















section \<open>Remote subscriptions and connected peers\<close>

lemma lookup_set_update:
  "lookup_set (AList.update k v al) t = (if t = k then v else lookup_set al t)"
  by (simp add: lookup_set_def update_conv')

lemma lookup_set_removeAll:
  "lookup_set (map (\<lambda>(t, tmap). (t, removeAll pid tmap)) tps) t = removeAll pid (lookup_set tps t)"
  by (simp add: lookup_set_def map_of_map split: option.splits)

lemma keys_delete: "fst ` set (AList.delete k al) = fst ` set al - {k}"
proof -
  have "set (map fst (AList.delete k al)) = set (map fst al) - {k}"
    by (simp only: delete_keys set_removeAll)
  then show ?thesis by simp
qed

lemma send_all_keys: "send_all out ps = Inr ps' \<Longrightarrow> map fst ps' = map fst ps"
  by (induction ps arbitrary: ps') (auto split: sum.splits)

lemma announce_frame:
  "announce topic sub s = Inr s' \<Longrightarrow>
     topics s' = topics s \<and> map fst (peers s') = map fst (peers s)"
  by (auto simp: announce_def Let_def split: sum.splits dest: send_all_keys)

lemma handleRemoveSubscription_frame:
  "handleRemoveSubscription sub s = Inr s' \<Longrightarrow>
     topics s' = topics s \<and> map fst (peers s') = map fst (peers s)"
  by (auto simp: handleRemoveSubscription_def Let_def
      split: if_splits option.splits sum.splits dest!: announce_frame)

lemma handleAddSubscription_frame:
  "handleAddSubscription topic s = Inr (sub, s') \<Longrightarrow>
     topics s' = topics s \<and> map fst (peers s') = map fst (peers s)"
  by (auto simp: handleAddSubscription_def Let_def
      split: if_splits option.splits sum.splits dest!: announce_frame)

lemma maybePublishMessage_frame:
  "maybePublishMessage p msg s = Inr s' \<Longrightarrow> topics s' = topics s \<and> peers s' = peers s"
  by (auto simp: maybePublishMessage_def notifySubs_def publishMessage_def Let_def
      markSeen_def split: if_splits sum.splits)

lemma handle_publish_frame:
  "handle_publish p msgs s = Inr s' \<Longrightarrow> topics s' = topics s \<and> peers s' = peers s"
proof (induction msgs arbitrary: s)
  case Nil
  then show ?case by simp
next
  case (Cons m msgs)
  show ?case
  proof (cases "subscribedToMsg s m")
    case True
    with Cons.prems obtain s1 where 1: "maybePublishMessage p m s = Inr s1"
      and 2: "handle_publish p msgs s1 = Inr s'"
      by (auto split: sum.splits)
    from maybePublishMessage_frame[OF 1] Cons.IH[OF 2] show ?thesis by simp
  next
    case False
    with Cons.prems Cons.IH show ?thesis by simp
  qed
qed

lemma handle_subopts_within:
  "(\<forall>t. set (lookup_set tps t) \<subseteq> K) \<Longrightarrow> (subscribes subopts \<longrightarrow> p \<in> K) \<Longrightarrow>
     set (lookup_set (handle_subopts p subopts tps) t) \<subseteq> K"
proof (induction subopts arbitrary: tps)
  case Nil
  then show ?case by simp
next
  case (Cons subopt rest)
  let ?t = "GetTopicid subopt"
  show ?case
  proof (cases "GetSubscribe subopt")
    case True
    with Cons.prems(2) have p: "p \<in> K" by simp
    have "\<forall>t. set (lookup_set (AList.update ?t (List.insert p (lookup_set tps ?t)) tps) t) \<subseteq> K"
      using Cons.prems(1) p by (auto simp: lookup_set_update)
    from Cons.IH[OF this] p True show ?thesis by (simp add: Let_def)
  next
    case False
    with Cons.prems(2) have r: "subscribes rest \<longrightarrow> p \<in> K" by simp
    show ?thesis
    proof (cases "map_of tps ?t")
      case None
      with False Cons.IH[OF Cons.prems(1) r] show ?thesis by (simp add: Let_def)
    next
      case (Some tmap)
      then have "lookup_set tps ?t = tmap" by (simp add: lookup_set_def)
      with Cons.prems(1) have "set tmap \<subseteq> K" by blast
      with Cons.prems(1)
      have "\<forall>t. set (lookup_set (AList.update ?t (removeAll p tmap) tps) t) \<subseteq> K"
        by (auto simp: lookup_set_update)
      from Cons.IH[OF this r] False Some show ?thesis by (simp add: Let_def)
    qed
  qed
qed

lemma handle_subopts_append:
  "handle_subopts p (xs @ ys) tps = handle_subopts p ys (handle_subopts p xs tps)"
  by (induction xs arbitrary: tps) (auto simp: Let_def split: option.splits)

lemma handle_subopts_last_subscribe:
  "p \<in> set (lookup_set
      (handle_subopts p (pre @ [\<lparr>GetTopicid = t, GetSubscribe = True\<rparr>]) tps) t)"
  by (simp add: handle_subopts_append Let_def lookup_set_update)

lemma keys_eq: "map fst ps' = map fst ps \<Longrightarrow> fst ` set ps' = fst ` set ps"
  by (metis set_map)

lemma processLoop_keeps:
  assumes "topics_in_peers s" and "sender_connected e s" and "processLoop e s = Inr (r, s')"
  shows "topics_in_peers s'"
proof (cases e)
  case (NewPeers pid)
  with assms(3) obtain messages where "s' = s\<lparr>peers := AList.update pid messages (peers s)\<rparr>"
    by (auto split: sum.splits)
  then have eq: "topics s' = topics s" "fst ` set (peers s') = {pid} \<union> fst ` set (peers s)"
    by (simp_all add: dom_update)
  show ?thesis
    unfolding topics_in_peers_def
  proof
    fix t
    from assms(1) have "set (lookup_set (topics s) t) \<subseteq> fst ` set (peers s)"
      by (simp add: topics_in_peers_def)
    then show "set (lookup_set (topics s') t) \<subseteq> fst ` set (peers s')"
      unfolding eq by (rule subset_trans) blast
  qed
next
  case (PeerDead pid)
  with assms(3) have "s' = s\<lparr>peers := AList.delete pid (peers s),
      topics := map (\<lambda>(t, tmap). (t, removeAll pid tmap)) (topics s)\<rparr>"
    by (auto split: sum.splits)
  then have eq: "\<And>t. lookup_set (topics s') t = removeAll pid (lookup_set (topics s) t)"
    "fst ` set (peers s') = fst ` set (peers s) - {pid}"
    by (simp_all add: lookup_set_removeAll keys_delete)
  show ?thesis
    unfolding topics_in_peers_def
  proof
    fix t
    from assms(1) have "set (lookup_set (topics s) t) \<subseteq> fst ` set (peers s)"
      by (simp add: topics_in_peers_def)
    then show "set (lookup_set (topics s') t) \<subseteq> fst ` set (peers s')"
      unfolding eq set_removeAll by (rule Diff_mono) simp
  qed
next
  case GetTopicsReq
  with assms show ?thesis by auto
next
  case (CancelCh sub)
  with assms obtain a: "topics s' = topics s" and b: "map fst (peers s') = map fst (peers s)"
    by (auto split: sum.splits dest!: handleRemoveSubscription_frame)
  from keys_eq[OF b] a assms(1) show ?thesis by (simp add: topics_in_peers_def)
next
  case (AddSub topic)
  with assms obtain a: "topics s' = topics s" and b: "map fst (peers s') = map fst (peers s)"
    by (auto split: sum.splits dest!: handleAddSubscription_frame)
  from keys_eq[OF b] a assms(1) show ?thesis by (simp add: topics_in_peers_def)
next
  case (GetPeersReq topic)
  with assms show ?thesis by auto
next
  case (Incoming rpc)
  let ?s1 = "s\<lparr>topics := handle_subopts (rpc_from rpc) (GetSubscriptions rpc) (topics s)\<rparr>"
  from Incoming assms(3) have "handle_publish (rpc_from rpc) (GetPublish rpc) ?s1 = Inr s'"
    by (auto simp: handleIncomingRPC_def split: sum.splits)
  from handle_publish_frame[OF this]
  have eq: "topics s' = handle_subopts (rpc_from rpc) (GetSubscriptions rpc) (topics s)"
    "peers s' = peers s" by simp_all
  from Incoming assms(2)
  have c: "subscribes (GetSubscriptions rpc) \<longrightarrow> rpc_from rpc \<in> fst ` set (peers s)"
    by simp
  from assms(1) have i: "\<forall>t. set (lookup_set (topics s) t) \<subseteq> fst ` set (peers s)"
    by (simp add: topics_in_peers_def)
  show ?thesis
    unfolding topics_in_peers_def eq
  proof
    fix t
    from handle_subopts_within[OF i c]
    show "set (lookup_set (handle_subopts (rpc_from rpc) (GetSubscriptions rpc) (topics s)) t)
            \<subseteq> fst ` set (peers s)" .
  qed
next
  case (Publish topic data now)
  with assms obtain "topics s' = topics s" "peers s' = peers s"
    by (auto split: sum.splits dest!: maybePublishMessage_frame)
  with assms(1) show ?thesis by (simp add: topics_in_peers_def)
qed

lemma worker_takes_keeps: "topics_in_peers s \<Longrightarrow> topics_in_peers (worker_takes pid s)"
proof -
  assume a: "topics_in_peers s"
  have "topics (worker_takes pid s) = topics s"
    by (simp add: worker_takes_def split: option.splits)
  moreover have "fst ` set (peers (worker_takes pid s)) = fst ` set (peers s)"
  proof (cases "map_of (peers s) pid")
    case None
    then show ?thesis by (simp add: worker_takes_def)
  next
    case (Some ch)
    then have "pid \<in> fst ` set (peers s)" by (metis map_of_eq_None_iff option.distinct(1))
    with Some show ?thesis by (auto simp: worker_takes_def dom_update)
  qed
  ultimately show ?thesis using a by (simp add: topics_in_peers_def)
qed

lemma reader_takes_keeps: "topics_in_peers s \<Longrightarrow> topics_in_peers (reader_takes sub s)"
  by (simp add: topics_in_peers_def reader_takes_def)

lemma exec_keeps:
  "topics_in_peers s \<Longrightarrow> senders_connected st s \<Longrightarrow> exec st s = Inr s' \<Longrightarrow> topics_in_peers s'"
proof (induction st s rule: exec.induct)
  case (1 s)
  then show ?case by simp
next
  case (2 e st s)
  from "2.prems"(3) obtain r s1 where 1: "processLoop e s = Inr (r, s1)"
    and 2: "exec st s1 = Inr s'"
    by (auto split: sum.splits)
  from "2.prems"(2) 1 have 3: "sender_connected e s" "senders_connected st s1" by simp_all
  from processLoop_keeps[OF "2.prems"(1) 3(1) 1] have "topics_in_peers s1" .
  from "2.IH"[OF 1 refl this 3(2) 2] show ?case .
next
  case (3 pid st s)
  from "3.prems" worker_takes_keeps[of s pid] "3.IH" show ?case by simp
next
  case (4 sub st s)
  from "4.prems" reader_takes_keeps[of s sub] "4.IH" show ?case by simp
qed

lemma handleIncomingRPC_no_messages:
  "GetPublish rpc = [] \<Longrightarrow> \<exists>s'. handleIncomingRPC rpc s = Inr s'"
  by (simp add: handleIncomingRPC_def)

text \<open>
  C3, as amended. Take the property that every peer id in the set of a topic of
  \<open>topics\<close> is a key of \<open>peers\<close>. From any state that has it, every iteration
  of the loop keeps it, provided that an incoming RPC carrying a subscribe=true option is
  taken while its sender is a key of \<open>peers\<close>; so do the steps of the send workers
  and of the readers. Hence it holds in every state reached from the initial state by
  such steps. A peer-down event leaves its peer in no topic set and not among the keys
  of \<open>peers\<close>. An incoming RPC whose last option is subscribe=true for a topic puts
  its sender into the set of that topic and leaves \<open>peers\<close> as it is, whether the
  sender is a key of \<open>peers\<close> or not; an RPC without messages is always processed
  to the end.
\<close>

theorem topics_within_peers:
  "(topics_in_peers s0 \<and> sender_connected e s0 \<and> processLoop e s0 = Inr (r, s1) \<longrightarrow>
      topics_in_peers s1) \<and>
   (topics_in_peers s0 \<longrightarrow>
      topics_in_peers (worker_takes pid s0) \<and> topics_in_peers (reader_takes sub s0)) \<and>
   (senders_connected st (NewFloodSub h) \<and> exec st (NewFloodSub h) = Inr s \<longrightarrow>
      set (lookup_set (topics s) t) \<subseteq> fst ` set (peers s)) \<and>
   (processLoop (PeerDead pid) s0 = Inr (r, s1) \<longrightarrow>
      pid \<notin> fst ` set (peers s1) \<and> pid \<notin> set (lookup_set (topics s1) t)) \<and>
   (GetSubscriptions rpc = pre @ [\<lparr>GetTopicid = t, GetSubscribe = True\<rparr>] \<and>
    handleIncomingRPC rpc s0 = Inr s1 \<longrightarrow>
      rpc_from rpc \<in> set (lookup_set (topics s1) t) \<and> peers s1 = peers s0) \<and>
   (GetPublish rpc = [] \<longrightarrow> (\<exists>s'. handleIncomingRPC rpc s0 = Inr s'))"
proof -
  have A: "topics_in_peers s1"
    if "topics_in_peers s0" "sender_connected e s0" "processLoop e s0 = Inr (r, s1)"
    using that by (rule processLoop_keeps)
  have B: "topics_in_peers (worker_takes pid s0) \<and> topics_in_peers (reader_takes sub s0)"
    if "topics_in_peers s0"
    using that by (simp add: worker_takes_keeps reader_takes_keeps)
  have C: "set (lookup_set (topics s) t) \<subseteq> fst ` set (peers s)"
    if a: "senders_connected st (NewFloodSub h)" and b: "exec st (NewFloodSub h) = Inr s"
  proof -
    have "topics_in_peers (NewFloodSub h)"
      by (simp add: topics_in_peers_def NewFloodSub_def lookup_set_def)
    from exec_keeps[OF this a b] show ?thesis
      by (simp add: topics_in_peers_def)
  qed
  have D: "pid \<notin> fst ` set (peers s1) \<and> pid \<notin> set (lookup_set (topics s1) t)"
    if "processLoop (PeerDead pid) s0 = Inr (r, s1)"
  proof -
    from that have "s1 = s0\<lparr>peers := AList.delete pid (peers s0),
        topics := map (\<lambda>(t, tmap). (t, removeAll pid tmap)) (topics s0)\<rparr>"
      by (auto split: sum.splits)
    then have "lookup_set (topics s1) t = removeAll pid (lookup_set (topics s0) t)"
      "fst ` set (peers s1) = fst ` set (peers s0) - {pid}"
      by (simp_all add: lookup_set_removeAll keys_delete)
    then show ?thesis by simp
  qed
  have E: "rpc_from rpc \<in> set (lookup_set (topics s1) t) \<and> peers s1 = peers s0"
    if g: "GetSubscriptions rpc = pre @ [\<lparr>GetTopicid = t, GetSubscribe = True\<rparr>]"
      and h: "handleIncomingRPC rpc s0 = Inr s1"
  proof -
    let ?s = "s0\<lparr>topics := handle_subopts (rpc_from rpc) (GetSubscriptions rpc) (topics s0)\<rparr>"
    from h have "handle_publish (rpc_from rpc) (GetPublish rpc) ?s = Inr s1"
      by (simp add: handleIncomingRPC_def)
    from handle_publish_frame[OF this]
    have "topics s1 = handle_subopts (rpc_from rpc) (GetSubscriptions rpc) (topics s0)"
      "peers s1 = peers s0" by simp_all
    with g handle_subopts_last_subscribe[of "rpc_from rpc" pre t "topics s0"]
    show ?thesis by simp
  qed
  have F: "\<exists>s'. handleIncomingRPC rpc s0 = Inr s'" if "GetPublish rpc = []"
    using that by (rule handleIncomingRPC_no_messages)
  from A B C D E F show ?thesis by blast
qed

text \<open>
  With Q connected and in the set of "t": an unsubscribe from Z, which is not connected,
  is a step that keeps the property, and so is a step of Q's worker. A run in which P
  connects, announces "t" and goes down, with a message and an unsubscribe from Z in
  between; a run that sends 41 frames to P's queue while its worker takes them; a
  peer-down of P; and an RPC from P, not connected, whose last option subscribes to "t".
\<close>

theorem topics_within_peers_witness:
  "topics_in_peers
     \<lparr>host_ID = ''H'', myTopics = [], topics = [(''t'', [''Q''])],
      peers = [(''Q'', \<lparr>buf = [], cap = 32, closed = False\<rparr>)],
      seenMessages = {}, subscriptions = [], spawned = []\<rparr> \<and>
   processLoop
     (Incoming \<lparr>GetSubscriptions = [\<lparr>GetTopicid = ''t'', GetSubscribe = False\<rparr>],
                GetPublish = [], rpc_from = ''Z''\<rparr>)
     \<lparr>host_ID = ''H'', myTopics = [], topics = [(''t'', [''Q''])],
      peers = [(''Q'', \<lparr>buf = [], cap = 32, closed = False\<rparr>)],
      seenMessages = {}, subscriptions = [], spawned = []\<rparr>
     = Inr (NoReply,
         \<lparr>host_ID = ''H'', myTopics = [], topics = [(''t'', [''Q''])],
          peers = [(''Q'', \<lparr>buf = [], cap = 32, closed = False\<rparr>)],
          seenMessages = {}, subscriptions = [], spawned = []\<rparr>) \<and>
   topics_in_peers (worker_takes ''Q''
     \<lparr>host_ID = ''H'', myTopics = [], topics = [(''t'', [''Q''])],
      peers = [(''Q'', \<lparr>buf = [], cap = 32, closed = False\<rparr>)],
      seenMessages = {}, subscriptions = [], spawned = []\<rparr>) \<and>
   exec [Loop (NewPeers ''P''), SendWorker ''P'',
         Loop (Incoming \<lparr>GetSubscriptions = [\<lparr>GetTopicid = ''t'', GetSubscribe = True\<rparr>],
                         GetPublish = [], rpc_from = ''P''\<rparr>),
         Loop (AddSub ''t''),
         Loop (Incoming \<lparr>GetSubscriptions = [\<lparr>GetTopicid = ''t'', GetSubscribe = False\<rparr>],
                         GetPublish = [\<lparr>GetFrom = ''A'', GetData = ''d'', GetSeqno = ''1'',
                                        GetTopicIDs = [''t'']\<rparr>],
                         rpc_from = ''Z''\<rparr>),
         Reader 0,
         Loop (PeerDead ''P'')] (NewFloodSub ''H'')
     = Inr \<lparr>host_ID = ''H'', myTopics = [(''t'', [0])], topics = [(''t'', [])], peers = [],
            seenMessages = {''A1''},
            subscriptions = [\<lparr>sub_ch = \<lparr>buf = [], cap = 32, closed = False\<rparr>,
                              sub_topic = ''t'', sub_err = None\<rparr>],
            spawned = [(''P'', rpcWithMessages [\<lparr>GetFrom = ''A'', GetData = ''d'',
                                                  GetSeqno = ''1'', GetTopicIDs = [''t'']\<rparr>])]\<rparr> \<and>
   set (lookup_set (topics
          \<lparr>host_ID = ''H'', myTopics = [(''t'', [0])], topics = [(''t'', [])], peers = [],
            seenMessages = {''A1''},
            subscriptions = [\<lparr>sub_ch = \<lparr>buf = [], cap = 32, closed = False\<rparr>,
                              sub_topic = ''t'', sub_err = None\<rparr>],
            spawned = [(''P'', rpcWithMessages [\<lparr>GetFrom = ''A'', GetData = ''d'',
                                                  GetSeqno = ''1'', GetTopicIDs = [''t'']\<rparr>])]\<rparr>)
        ''t'')
     \<subseteq> fst ` set (peers
          \<lparr>host_ID = ''H'', myTopics = [(''t'', [0])], topics = [(''t'', [])], peers = [],
            seenMessages = {''A1''},
            subscriptions = [\<lparr>sub_ch = \<lparr>buf = [], cap = 32, closed = False\<rparr>,
                              sub_topic = ''t'', sub_err = None\<rparr>],
            spawned = [(''P'', rpcWithMessages [\<lparr>GetFrom = ''A'', GetData = ''d'',
                                                  GetSeqno = ''1'', GetTopicIDs = [''t'']\<rparr>])]\<rparr>) \<and>
   (\<exists>s. exec (Loop (NewPeers ''P'') #
               concat (map (\<lambda>i. [Loop (AddSub ''t''), SendWorker ''P'',
                                   Loop (CancelCh i), SendWorker ''P'']) [0..<20]))
           (NewFloodSub ''H'') = Inr s \<and>
        set (lookup_set (topics s) ''t'') \<subseteq> fst ` set (peers s)) \<and>
   processLoop (PeerDead ''P'')
      \<lparr>host_ID = ''H'', myTopics = [], topics = [(''t'', [''Q'', ''P''])],
       peers = [(''P'', \<lparr>buf = [rpcWithSubs []], cap = 32, closed = False\<rparr>),
                (''Q'', \<lparr>buf = [rpcWithSubs []], cap = 32, closed = False\<rparr>)],
       seenMessages = {}, subscriptions = [], spawned = []\<rparr>
     = Inr (NoReply, \<lparr>host_ID = ''H'', myTopics = [], topics = [(''t'', [''Q''])],
            peers = [(''Q'', \<lparr>buf = [rpcWithSubs []], cap = 32, closed = False\<rparr>)],
            seenMessages = {}, subscriptions = [], spawned = []\<rparr>) \<and>
   ''P'' \<notin> fst ` set (peers \<lparr>host_ID = ''H'', myTopics = [], topics = [(''t'', [''Q''])],
            peers = [(''Q'', \<lparr>buf = [rpcWithSubs []], cap = 32, closed = False\<rparr>)],
            seenMessages = {}, subscriptions = [], spawned = []\<rparr>) \<and>
   ''P'' \<notin> set (lookup_set (topics \<lparr>host_ID = ''H'', myTopics = [], topics = [(''t'', [''Q''])],
            peers = [(''Q'', \<lparr>buf = [rpcWithSubs []], cap = 32, closed = False\<rparr>)],
            seenMessages = {}, subscriptions = [], spawned = []\<rparr>) ''t'') \<and>
   (\<exists>s'. handleIncomingRPC
           \<lparr>GetSubscriptions = [\<lparr>GetTopicid = ''u'', GetSubscribe = False\<rparr>,
                                 \<lparr>GetTopicid = ''t'', GetSubscribe = True\<rparr>],
            GetPublish = [], rpc_from = ''P''\<rparr> (NewFloodSub ''H'') = Inr s' \<and>
         ''P'' \<in> set (lookup_set (topics s') ''t'') \<and> peers s' = [])"
  (is "?inv0 \<and> ?step \<and> ?worker \<and> ?exec \<and> ?within \<and> ?longrun \<and> ?down \<and> ?nokey \<and> ?notopic \<and> ?ins")
proof -
  let ?s0 = "\<lparr>host_ID = ''H'', myTopics = [], topics = [(''t'', [''Q''])],
      peers = [(''Q'', \<lparr>buf = [], cap = 32, closed = False\<rparr>)],
      seenMessages = {}, subscriptions = [], spawned = []\<rparr>"
  let ?e = "Incoming \<lparr>GetSubscriptions = [\<lparr>GetTopicid = ''t'', GetSubscribe = False\<rparr>],
                GetPublish = [], rpc_from = ''Z''\<rparr>"
  let ?st = "[Loop (NewPeers ''P''), SendWorker ''P'',
         Loop (Incoming \<lparr>GetSubscriptions = [\<lparr>GetTopicid = ''t'', GetSubscribe = True\<rparr>],
                         GetPublish = [], rpc_from = ''P''\<rparr>),
         Loop (AddSub ''t''),
         Loop (Incoming \<lparr>GetSubscriptions = [\<lparr>GetTopicid = ''t'', GetSubscribe = False\<rparr>],
                         GetPublish = [\<lparr>GetFrom = ''A'', GetData = ''d'', GetSeqno = ''1'',
                                        GetTopicIDs = [''t'']\<rparr>],
                         rpc_from = ''Z''\<rparr>),
         Reader 0,
         Loop (PeerDead ''P'')]"
  let ?long = "Loop (NewPeers ''P'') #
               concat (map (\<lambda>i. [Loop (AddSub ''t''), SendWorker ''P'',
                                   Loop (CancelCh i), SendWorker ''P'']) [0..<20])"
  let ?rpc = "\<lparr>GetSubscriptions = [\<lparr>GetTopicid = ''u'', GetSubscribe = False\<rparr>,
                                 \<lparr>GetTopicid = ''t'', GetSubscribe = True\<rparr>],
            GetPublish = [], rpc_from = ''P''\<rparr>"
  have inv0: ?inv0
    by (auto simp: topics_in_peers_def lookup_set_def)
  have conn: "sender_connected ?e ?s0" by simp
  have step: ?step by code_simp
  from topics_within_peers inv0 have worker: ?worker by blast
  have sc: "senders_connected ?st (NewFloodSub ''H'')" by code_simp
  have ex: ?exec by code_simp
  from topics_within_peers sc ex have within: ?within by blast
  have scl: "senders_connected ?long (NewFloodSub ''H'')" by code_simp
  have "map_sum id (\<lambda>s. ()) (exec ?long (NewFloodSub ''H'')) = Inr ()" by code_simp
  then obtain s where exl: "exec ?long (NewFloodSub ''H'') = Inr s"
    by (cases "exec ?long (NewFloodSub ''H'')") simp_all
  from topics_within_peers scl exl
  have "set (lookup_set (topics s) ''t'') \<subseteq> fst ` set (peers s)" by blast
  with exl have long: ?longrun by blast
  have down: ?down by code_simp
  from topics_within_peers down have gone: "?nokey \<and> ?notopic" by blast
  have g: "GetSubscriptions ?rpc
      = [\<lparr>GetTopicid = ''u'', GetSubscribe = False\<rparr>] @ [\<lparr>GetTopicid = ''t'', GetSubscribe = True\<rparr>]"
    by simp
  have "GetPublish ?rpc = []" by simp
  with topics_within_peers obtain s' where h: "handleIncomingRPC ?rpc (NewFloodSub ''H'') = Inr s'"
    by blast
  from topics_within_peers g h
  have "rpc_from ?rpc \<in> set (lookup_set (topics s') ''t'') \<and> peers s' = peers (NewFloodSub ''H'')"
    by blast
  with h have ins: ?ins by (auto simp: NewFloodSub_def)
  from inv0 step worker ex within long down gone ins show ?thesis by blast
qed

text \<open>
  C3, as stated, fails: \<open>handleIncomingRPC\<close> does not look the sender up in
  \<open>peers\<close>. P connects and goes down; an RPC of P that was still queued is taken
  next, and its subscribe=true option puts P into the set of "t" while \<open>peers\<close> is
  empty.
\<close>

theorem stale_rpc_inserts_absent_peer:
  "run [NewPeers ''P'', PeerDead ''P'',
        Incoming \<lparr>GetSubscriptions = [\<lparr>GetTopicid = ''t'', GetSubscribe = True\<rparr>],
                  GetPublish = [], rpc_from = ''P''\<rparr>] (NewFloodSub ''H'')
     = Inr \<lparr>host_ID = ''H'', myTopics = [], topics = [(''t'', [''P''])], peers = [],
            seenMessages = {}, subscriptions = [], spawned = []\<rparr> \<and>
   ''P'' \<in> set (lookup_set (topics \<lparr>host_ID = ''H'', myTopics = [], topics = [(''t'', [''P''])],
            peers = [], seenMessages = {}, subscriptions = [], spawned = []\<rparr>) ''t'') \<and>
   ''P'' \<notin> fst ` set (peers \<lparr>host_ID = ''H'', myTopics = [], topics = [(''t'', [''P''])],
            peers = [], seenMessages = {}, subscriptions = [], spawned = []\<rparr>)"
  by code_simp

end
